theory Spec2Isabelle
  imports Complex_Main "HOL-Library.Log_Nat"
begin

section \<open>Rodent predictor: the prediction handler of \<open>api/predict.py\<close>\<close>

text \<open>
  The development embeds \<open>handle_predict\<close> and the module-level loading code of
  \<open>api/predict.py\<close>. The fitted encoder and the fitted anomaly model are binary
  artifacts loaded with joblib; they enter the model as parameters. Python floats are
  IEEE 754 binary64 numbers and are modelled as such: every arithmetic operation computes
  the exact rational result and rounds it to the nearest representable number, ties to
  even.
\<close>

subsection \<open>Binary64 floating point\<close>

text \<open>
  A float is a finite rational, an infinity or NaN. The sign of zero is not represented:
  the handler only compares, clamps and rounds its floats to integers, and none of these
  distinguishes \<open>-0.0\<close> from \<open>0.0\<close>.
\<close>

datatype fp = Fin rat | PInf | NInf | NaN

text \<open>Python's \<open>round(x)\<close> on the exact value: to the nearest integer, ties to even.\<close>

definition round_half_even :: "rat \<Rightarrow> int" where
  "round_half_even x =
     (let f = \<lfloor>x\<rfloor>; d = x - of_int f
      in if d < 1 / 2 then f
         else if 1 / 2 < d then f + 1
         else if even f then f else f + 1)"

text \<open>The binary exponent of a positive rational: \<open>2 ^ e \<le> x < 2 ^ (e + 1)\<close>.\<close>

definition ilog2 :: "rat \<Rightarrow> int" where
  "ilog2 x = (if 1 \<le> x then bitlen \<lfloor>x\<rfloor> - 1 else - bitlen (\<lceil>1 / x\<rceil> - 1))"

text \<open>
  The spacing of binary64 numbers around a positive magnitude: 53 significant bits, and a
  fixed spacing of \<open>2 ^ -1074\<close> below the smallest normal number \<open>2 ^ -1022\<close>.
\<close>

definition ulp :: "rat \<Rightarrow> rat" where
  "ulp a = 2 powi (max (ilog2 a) (- 1022) - 52)"

definition round_mag :: "rat \<Rightarrow> rat" where
  "round_mag a = of_int (round_half_even (a / ulp a)) * ulp a"

text \<open>
  Rounding an exact result to binary64 (round to nearest, ties to even); a result whose
  rounded magnitude reaches \<open>2 ^ 1024\<close>, that is whose binary exponent is 1024 or more,
  overflows to an infinity.
\<close>

definition fl :: "rat \<Rightarrow> fp" where
  "fl x =
     (if x = 0 then Fin 0
      else let y = round_mag \<bar>x\<bar>
           in if 1024 \<le> ilog2 y then (if 0 < x then PInf else NInf)
              else Fin (if 0 < x then y else - y))"

fun fsub :: "fp \<Rightarrow> fp \<Rightarrow> fp" where
  "fsub NaN _ = NaN"
| "fsub _ NaN = NaN"
| "fsub (Fin a) (Fin b) = fl (a - b)"
| "fsub (Fin a) PInf = NInf"
| "fsub (Fin a) NInf = PInf"
| "fsub PInf PInf = NaN"
| "fsub PInf _ = PInf"
| "fsub NInf NInf = NaN"
| "fsub NInf _ = NInf"

fun fmul :: "fp \<Rightarrow> fp \<Rightarrow> fp" where
  "fmul NaN _ = NaN"
| "fmul _ NaN = NaN"
| "fmul (Fin a) (Fin b) = fl (a * b)"
| "fmul (Fin a) PInf = (if a = 0 then NaN else if 0 < a then PInf else NInf)"
| "fmul (Fin a) NInf = (if a = 0 then NaN else if 0 < a then NInf else PInf)"
| "fmul PInf (Fin b) = (if b = 0 then NaN else if 0 < b then PInf else NInf)"
| "fmul NInf (Fin b) = (if b = 0 then NaN else if 0 < b then NInf else PInf)"
| "fmul PInf PInf = PInf"
| "fmul PInf NInf = NInf"
| "fmul NInf PInf = NInf"
| "fmul NInf NInf = PInf"

text \<open>
  Division of numpy floats: a zero divisor gives an infinity or NaN (the divisor is taken
  as \<open>+0.0\<close>). The handler only ever divides by \<open>max_score - min_score\<close>.
\<close>

fun fdiv :: "fp \<Rightarrow> fp \<Rightarrow> fp" where
  "fdiv NaN _ = NaN"
| "fdiv _ NaN = NaN"
| "fdiv (Fin a) (Fin b) =
     (if b = 0 then (if a = 0 then NaN else if 0 < a then PInf else NInf)
      else fl (a / b))"
| "fdiv (Fin a) PInf = Fin 0"
| "fdiv (Fin a) NInf = Fin 0"
| "fdiv PInf (Fin b) = (if 0 \<le> b then PInf else NInf)"
| "fdiv NInf (Fin b) = (if 0 \<le> b then NInf else PInf)"
| "fdiv PInf _ = NaN"
| "fdiv NInf _ = NaN"

text \<open>The comparison \<open>a < b\<close> of floats: false whenever an operand is NaN.\<close>

fun fp_lt :: "fp \<Rightarrow> fp \<Rightarrow> bool" where
  "fp_lt NaN _ = False"
| "fp_lt _ NaN = False"
| "fp_lt (Fin a) (Fin b) = (a < b)"
| "fp_lt (Fin a) PInf = True"
| "fp_lt (Fin a) NInf = False"
| "fp_lt PInf _ = False"
| "fp_lt NInf NInf = False"
| "fp_lt NInf _ = True"

text \<open>The order \<open>a \<le> b\<close> of two floats neither of which is NaN.\<close>

definition fp_le :: "fp \<Rightarrow> fp \<Rightarrow> bool" where
  "fp_le a b \<longleftrightarrow> a \<noteq> NaN \<and> b \<noteq> NaN \<and> \<not> fp_lt b a"

subsection \<open>Exceptions\<close>

text \<open>
  \<open>Raised m\<close> is an exception raised by an artifact or by the request parser, with its
  message. The others are raised by the libraries the handler calls: selecting a column
  that the frame does not have, the DataFrame constructor on a row whose width differs
  from the number of column names, \<open>reindex\<close> on duplicate labels, and \<open>round\<close> on an
  infinity or NaN.
\<close>

datatype exn =
    Raised string
  | KeyError string
  | ShapeMismatch nat nat
  | DuplicateLabels
  | CannotConvertToInt

subsection \<open>Score interpretation (lines 82 to 91)\<close>

text \<open>A float literal denotes the binary64 number nearest to its decimal value.\<close>

definition min_score :: fp where
  "min_score = fl (- (2 / 10))"

definition max_score :: fp where
  "max_score = fl (2 / 10)"

text \<open>\<open>min(100, x)\<close> and \<open>max(0, x)\<close>: the builtin keeps its first argument unless the
  second compares strictly smaller (larger).\<close>

definition py_min_100 :: "fp \<Rightarrow> fp" where
  "py_min_100 x = (if fp_lt x (Fin 100) then x else Fin 100)"

definition py_max_0 :: "fp \<Rightarrow> fp" where
  "py_max_0 x = (if fp_lt (Fin 0) x then x else Fin 0)"

fun py_round :: "fp \<Rightarrow> exn + int" where
  "py_round (Fin x) = Inr (round_half_even x)"
| "py_round _ = Inl CannotConvertToInt"

definition risk_raw :: "fp \<Rightarrow> fp" where
  "risk_raw score_for_scaling =
     fdiv (fmul (Fin 100) (fsub max_score score_for_scaling)) (fsub max_score min_score)"

definition risk_clamped :: "fp \<Rightarrow> fp" where
  "risk_clamped s = py_max_0 (py_min_100 (risk_raw s))"

definition normalize :: "fp \<Rightarrow> exn + int" where
  "normalize s = py_round (risk_clamped s)"

subsection \<open>JSON values, frames and artifacts\<close>

datatype jvalue =
    JNull
  | JBool bool
  | JNum fp
  | JStr string
  | JArr "jvalue list"
  | JObj "(string \<times> jvalue) list"

text \<open>
  The parsed request body is a JSON object, kept as the list of its keys with their values
  (a lookup finds the first entry of a key), or \<open>None\<close> for a body that parses to
  \<open>null\<close>. Bodies that are JSON arrays or scalars are outside the model. A one-row
  DataFrame is the list of its column labels with the cell of each.
\<close>

type_synonym json_object = "(string \<times> jvalue) list"

type_synonym frame_row = "(string \<times> jvalue) list"

text \<open>
  The fitted encoder offers \<open>transform\<close>, from the frame of the categorical columns to
  one row of numbers, and \<open>get_feature_names_out\<close>; the fitted model offers
  \<open>decision_function\<close>, of which the handler takes the score of the single row. Each may
  raise. The row that \<open>transform\<close> returns is taken to be dense, as the DataFrame
  constructor of line 61 needs it.
\<close>

record encoder =
  transform :: "frame_row \<Rightarrow> exn + fp list"
  get_feature_names_out :: "string list \<Rightarrow> exn + string list"

type_synonym anomaly_model = "frame_row \<Rightarrow> exn + fp"

record artifacts =
  model :: "anomaly_model option"
  encoder :: "encoder option"
  model_input_columns :: "string list"

definition categorical_cols :: "string list" where
  "categorical_cols = [''soil_type'', ''crop_type'', ''tillage_type'', ''season'']"

definition numerical_cols :: "string list" where
  "numerical_cols = [''temp_7day_avg_f'', ''precip_7day_total_in'']"

definition required_input_cols :: "string list" where
  "required_input_cols =
     [''soil_type'', ''crop_type'', ''tillage_type'', ''season'',
      ''temp_7day_avg_f'', ''precip_7day_total_in'']"

subsection \<open>Module load (lines 15 to 32)\<close>

definition artifacts_failed :: artifacts where
  "artifacts_failed = \<lparr>model = None, encoder = None, model_input_columns = []\<rparr>"

text \<open>
  The arguments are the outcomes of the two \<open>joblib.load\<close> calls. Any exception in the
  \<open>try\<close> block, also one of \<open>get_feature_names_out\<close>, resets all three globals.
\<close>

definition load_artifacts :: "exn + anomaly_model \<Rightarrow> exn + encoder \<Rightarrow> artifacts" where
  "load_artifacts model_load encoder_load =
     (case model_load of
        Inl e \<Rightarrow> artifacts_failed
      | Inr m \<Rightarrow>
          (case encoder_load of
             Inl e \<Rightarrow> artifacts_failed
           | Inr enc \<Rightarrow>
               (case get_feature_names_out enc categorical_cols of
                  Inl e \<Rightarrow> artifacts_failed
                | Inr expected_columns \<Rightarrow>
                    \<lparr>model = Some m, encoder = Some enc,
                     model_input_columns = numerical_cols @ expected_columns\<rparr>)))"

subsection \<open>Preprocessing (lines 56 to 68)\<close>

text \<open>\<open>df[cols]\<close>: the sub-frame of the named columns, in the order asked for.\<close>

fun select_cols :: "frame_row \<Rightarrow> string list \<Rightarrow> exn + frame_row" where
  "select_cols df [] = Inr []"
| "select_cols df (c # cs) =
     (case map_of df c of
        None \<Rightarrow> Inl (KeyError c)
      | Some v \<Rightarrow>
          (case select_cols df cs of
             Inl e \<Rightarrow> Inl e
           | Inr row \<Rightarrow> Inr ((c, v) # row)))"

text \<open>\<open>pd.DataFrame(values, columns=names)\<close> for a single row of values.\<close>

definition encoded_frame :: "fp list \<Rightarrow> string list \<Rightarrow> exn + frame_row" where
  "encoded_frame encoded_cats names =
     (if length encoded_cats = length names then Inr (zip names (map JNum encoded_cats))
      else Inl (ShapeMismatch (length encoded_cats) (length names)))"

text \<open>
  \<open>df.reindex(columns=cols, fill_value=0)\<close>. A frame whose labels already equal
  \<open>cols\<close> is returned as it is; otherwise duplicate labels in the frame raise, and each
  asked column is looked up by label, a missing one being filled with 0.
\<close>

definition reindex :: "string list \<Rightarrow> frame_row \<Rightarrow> exn + frame_row" where
  "reindex cols df =
     (if map fst df = cols then Inr df
      else if \<not> distinct (map fst df) then Inl DuplicateLabels
      else Inr (map (\<lambda>c. (c, case map_of df c of Some v \<Rightarrow> v | None \<Rightarrow> JNum (Fin 0))) cols))"

definition features_combined :: "encoder \<Rightarrow> frame_row \<Rightarrow> exn + frame_row" where
  "features_combined enc input_df =
     (case select_cols input_df categorical_cols of
        Inl e \<Rightarrow> Inl e
      | Inr cat_df \<Rightarrow>
     (case transform enc cat_df of
        Inl e \<Rightarrow> Inl e
      | Inr encoded_cats \<Rightarrow>
     (case get_feature_names_out enc categorical_cols of
        Inl e \<Rightarrow> Inl e
      | Inr names \<Rightarrow>
     (case encoded_frame encoded_cats names of
        Inl e \<Rightarrow> Inl e
      | Inr encoded_cats_df \<Rightarrow>
     (case select_cols input_df numerical_cols of
        Inl e \<Rightarrow> Inl e
      | Inr num_df \<Rightarrow> Inr (num_df @ encoded_cats_df))))))"

definition features_final :: "encoder \<Rightarrow> string list \<Rightarrow> frame_row \<Rightarrow> exn + frame_row" where
  "features_final enc cols input_df =
     (case features_combined enc input_df of
        Inl e \<Rightarrow> Inl e
      | Inr combined \<Rightarrow> reindex cols combined)"

subsection \<open>The handler (lines 37 to 97)\<close>

datatype error_text =
    ModelNotLoaded
  | NoInputData
  | MissingFields "string list"
  | PredictionFailed exn

datatype payload = ErrorPayload error_text | ResultPayload int fp

type_synonym response = "payload \<times> nat"

text \<open>The body of the \<open>try\<close> block after validation: anything raised ends it.\<close>

definition predict :: "anomaly_model \<Rightarrow> encoder \<Rightarrow> string list \<Rightarrow> frame_row \<Rightarrow> exn + int \<times> fp" where
  "predict m enc cols input_df =
     (case features_final enc cols input_df of
        Inl e \<Rightarrow> Inl e
      | Inr features \<Rightarrow>
     (case m features of
        Inl e \<Rightarrow> Inl e
      | Inr anomaly_score_raw \<Rightarrow>
     (case normalize anomaly_score_raw of
        Inl e \<Rightarrow> Inl e
      | Inr risk_percentage \<Rightarrow> Inr (risk_percentage, anomaly_score_raw))))"

definition validate :: "json_object \<Rightarrow> bool" where
  "validate input_df = list_all (\<lambda>col. col \<in> set (map fst input_df)) required_input_cols"

text \<open>
  The request is the outcome of \<open>request.get_json()\<close>: an exception of the parser, or
  the parsed body. An empty object and \<open>null\<close> are the falsy bodies.
\<close>

definition handle_predict :: "artifacts \<Rightarrow> exn + json_object option \<Rightarrow> response" where
  "handle_predict env request_json =
     (case (model env, encoder env) of
        (Some m, Some enc) \<Rightarrow>
          (case request_json of
             Inl e \<Rightarrow> (ErrorPayload (PredictionFailed e), 500)
           | Inr None \<Rightarrow> (ErrorPayload NoInputData, 400)
           | Inr (Some input_data) \<Rightarrow>
               if input_data = [] then (ErrorPayload NoInputData, 400)
               else if \<not> validate input_data
               then (ErrorPayload (MissingFields required_input_cols), 400)
               else (case predict m enc (model_input_columns env) input_data of
                       Inl e \<Rightarrow> (ErrorPayload (PredictionFailed e), 500)
                     | Inr (risk_percentage, anomaly_score_raw) \<Rightarrow>
                         (ResultPayload risk_percentage anomaly_score_raw, 200)))
      | _ \<Rightarrow> (ErrorPayload ModelNotLoaded, 500))"

subsection \<open>The fitted artifacts, as the specification describes them\<close>

text \<open>
  Modelled from the spec: the fitted Categorical Encoder, the artifact
  \<open>models/one_hot_encoder.joblib\<close>, which is not among the sources. The specification
  describes it as a one-hot transform with one slot per (feature, category) pair known at
  fit time, in a stable order, where a category unseen during fitting yields an all-zero
  contribution for that feature's slots. \<open>categories\<close> lists the known categories of
  each feature; a slot is named by the feature and the category.
\<close>

definition one_hot_block :: "string list \<Rightarrow> jvalue \<Rightarrow> fp list" where
  "one_hot_block cats v = map (\<lambda>c. if v = JStr c then Fin 1 else Fin 0) cats"

definition one_hot_row :: "string list list \<Rightarrow> jvalue list \<Rightarrow> fp list" where
  "one_hot_row categories vals = concat (map2 one_hot_block categories vals)"

definition one_hot_names :: "string list \<Rightarrow> string list list \<Rightarrow> string list" where
  "one_hot_names features categories =
     concat (map2 (\<lambda>f cats. map (\<lambda>c. f @ ''_'' @ c) cats) features categories)"

definition one_hot_encoder :: "string list list \<Rightarrow> encoder" where
  "one_hot_encoder categories =
     \<lparr>transform = (\<lambda>df.
        if length df = length categories then Inr (one_hot_row categories (map snd df))
        else Inl (Raised ''unexpected number of features'')),
      get_feature_names_out = (\<lambda>features.
        if length features = length categories then Inr (one_hot_names features categories)
        else Inl (Raised ''unexpected number of features''))\<rparr>"

text \<open>
  Modelled from the spec: the fitted Anomaly Model, the artifact
  \<open>models/isolation_forest_model.joblib\<close>, which is not among the sources. The
  specification describes it as a function from a numeric feature vector to a real-valued
  anomaly score; \<open>n\<close> is the number of features it was fitted on. A cell that is not a
  finite number, or a vector of another length, is rejected.
\<close>

fun row_numbers :: "frame_row \<Rightarrow> rat list option" where
  "row_numbers [] = Some []"
| "row_numbers ((c, JNum (Fin x)) # row) = map_option ((#) x) (row_numbers row)"
| "row_numbers _ = None"

definition fitted_model :: "(rat list \<Rightarrow> rat) \<Rightarrow> nat \<Rightarrow> anomaly_model" where
  "fitted_model score n features =
     (case row_numbers features of
        None \<Rightarrow> Inl (Raised ''could not convert to a finite number'')
      | Some xs \<Rightarrow>
          if length xs = n then Inr (Fin (score xs))
          else Inl (Raised ''unexpected number of features''))"

subsection \<open>Example inputs and artifacts\<close>

text \<open>Concrete records and artifacts on which the theorems below are instantiated.\<close>

definition example_record :: json_object where
  "example_record =
     [(''soil_type'', JStr ''loam''), (''crop_type'', JStr ''corn''),
      (''tillage_type'', JStr ''no-till''), (''season'', JStr ''spring''),
      (''temp_7day_avg_f'', JNum (Fin 68)), (''precip_7day_total_in'', JNum (Fin (6 / 5)))]"

definition example_record_extra :: json_object where
  "example_record_extra =
     (''field_id'', JStr ''north-40'') # example_record @ [(''notes'', JNull)]"

definition null_soil_record :: json_object where
  "null_soil_record =
     [(''soil_type'', JNull), (''crop_type'', JStr ''corn''),
      (''tillage_type'', JStr ''no-till''), (''season'', JStr ''spring''),
      (''temp_7day_avg_f'', JNum (Fin 68)), (''precip_7day_total_in'', JNum (Fin (6 / 5)))]"

definition stub_encoder :: encoder where
  "stub_encoder =
     \<lparr>transform = (\<lambda>df. Inr [Fin 1, Fin 0]),
      get_feature_names_out = (\<lambda>features. Inr [''soil_type_loam'', ''soil_type_clay''])\<rparr>"

definition failing_encoder :: encoder where
  "failing_encoder =
     \<lparr>transform = (\<lambda>df. Inl (Raised ''boom'')),
      get_feature_names_out = (\<lambda>features. Inr [''soil_type_loam'', ''soil_type_clay''])\<rparr>"

definition stub_model :: anomaly_model where
  "stub_model = (\<lambda>features. Inr (Fin 0))"

definition failing_model :: anomaly_model where
  "failing_model = (\<lambda>features. Inl (Raised ''boom''))"

definition example_categories :: "string list list" where
  "example_categories =
     [[''clay'', ''loam'', ''sand''], [''corn'', ''soy''], [''conventional'', ''no-till''],
      [''fall'', ''spring'']]"

definition unseen_soil_record :: json_object where
  "unseen_soil_record =
     [(''soil_type'', JStr ''peat''), (''crop_type'', JStr ''corn''),
      (''tillage_type'', JStr ''no-till''), (''season'', JStr ''spring''),
      (''temp_7day_avg_f'', JNum (Fin 68)), (''precip_7day_total_in'', JNum (Fin (6 / 5)))]"

definition stub_combined :: frame_row where
  "stub_combined =
     [(''temp_7day_avg_f'', JNum (Fin 68)), (''precip_7day_total_in'', JNum (Fin (6 / 5))),
      (''soil_type_loam'', JNum (Fin 1)), (''soil_type_clay'', JNum (Fin 0))]"

section \<open>Properties\<close>

subsection \<open>Rounding to an integer and the binary exponent\<close>

lemma rhe_cases:
  "round_half_even x = \<lfloor>x\<rfloor> \<or> round_half_even x = \<lfloor>x\<rfloor> + 1"
  by (simp add: round_half_even_def Let_def)

lemma rhe_of_int [simp]: "round_half_even (of_int n) = n"
  by (simp add: round_half_even_def)

lemma rhe_lower: "of_int n \<le> x \<Longrightarrow> n \<le> round_half_even x"
proof -
  assume "of_int n \<le> x"
  then have "n \<le> \<lfloor>x\<rfloor>" by (simp add: le_floor_iff)
  then show ?thesis using rhe_cases [of x] by auto
qed

lemma rhe_upper: "x \<le> of_int n \<Longrightarrow> round_half_even x \<le> n"
proof (cases "x = of_int n")
  case True
  then show ?thesis by simp
next
  case False
  assume "x \<le> of_int n"
  with False have "x < of_int n" by simp
  then have "\<lfloor>x\<rfloor> < n" by (simp add: floor_less_iff)
  then show ?thesis using rhe_cases [of x] by auto
qed

lemma rhe_mono: "x \<le> y \<Longrightarrow> round_half_even x \<le> round_half_even y"
proof -
  assume xy: "x \<le> y"
  then have fl: "\<lfloor>x\<rfloor> \<le> \<lfloor>y\<rfloor>" by (rule floor_mono)
  show ?thesis
  proof (cases "\<lfloor>x\<rfloor> = \<lfloor>y\<rfloor>")
    case True
    with xy have "x - of_int \<lfloor>x\<rfloor> \<le> y - of_int \<lfloor>y\<rfloor>" by simp
    with True show ?thesis by (auto simp add: round_half_even_def Let_def)
  next
    case False
    with fl have "\<lfloor>x\<rfloor> + 1 \<le> \<lfloor>y\<rfloor>" by simp
    moreover have "round_half_even x \<le> \<lfloor>x\<rfloor> + 1" using rhe_cases [of x] by auto
    moreover have "\<lfloor>y\<rfloor> \<le> round_half_even y" using rhe_cases [of y] by auto
    ultimately show ?thesis by linarith
  qed
qed

lemma rhe_near: "\<bar>of_int (round_half_even x) - x\<bar> \<le> 1 / 2"
proof -
  have "of_int \<lfloor>x\<rfloor> \<le> x" "x < of_int \<lfloor>x\<rfloor> + 1" by linarith+
  then show ?thesis
    by (auto simp add: round_half_even_def Let_def abs_le_iff)
qed

lemma pow2_le_of_int: "2 ^ k \<le> (n::int) \<Longrightarrow> (2::rat) ^ k \<le> of_int n"
proof -
  assume "2 ^ k \<le> n"
  then have "(of_int (2 ^ k) :: rat) \<le> of_int n" by (simp only: of_int_le_iff)
  then show ?thesis by simp
qed

lemma of_int_le_pow2: "(n::int) \<le> 2 ^ k \<Longrightarrow> (of_int n :: rat) \<le> 2 ^ k"
proof -
  assume "n \<le> 2 ^ k"
  then have "(of_int n :: rat) \<le> of_int (2 ^ k)" by (simp only: of_int_le_iff)
  then show ?thesis by simp
qed

lemma ilog2_bounds:
  assumes "0 < x"
  shows "2 powi ilog2 x \<le> x" and "x < 2 powi (ilog2 x + 1)"
proof -
  show "2 powi ilog2 x \<le> x"
  proof (cases "1 \<le> x")
    case True
    then have n: "0 < \<lfloor>x\<rfloor>" by linarith
    from bitlen_bounds [OF n] have "2 ^ nat (bitlen \<lfloor>x\<rfloor> - 1) \<le> \<lfloor>x\<rfloor>" by simp
    then have "(2::rat) ^ nat (bitlen \<lfloor>x\<rfloor> - 1) \<le> of_int \<lfloor>x\<rfloor>"
      by (rule pow2_le_of_int)
    also have "\<dots> \<le> x" by simp
    finally have "(2::rat) ^ nat (bitlen \<lfloor>x\<rfloor> - 1) \<le> x" .
    moreover have "1 \<le> bitlen \<lfloor>x\<rfloor>" using n by (simp add: bitlen_alt_def)
    ultimately show ?thesis using True by (simp add: ilog2_def power_int_def)
  next
    case False
    define n where "n = \<lceil>1 / x\<rceil> - 1"
    from False assms have "1 < 1 / x" by simp
    then have n: "0 < n" unfolding n_def by linarith
    from bitlen_bounds [OF n] have "n < 2 ^ nat (bitlen n)" by simp
    then have "n + 1 \<le> 2 ^ nat (bitlen n)" by simp
    then have "(of_int (n + 1) :: rat) \<le> 2 ^ nat (bitlen n)"
      by (rule of_int_le_pow2)
    moreover have "1 / x \<le> of_int (n + 1)" unfolding n_def by simp
    ultimately have "1 / x \<le> 2 ^ nat (bitlen n)" by (rule order_trans [rotated])
    then have "1 / 2 ^ nat (bitlen n) \<le> x" using assms
      by (simp add: field_simps)
    moreover have "(2::rat) powi (- bitlen n) = 1 / 2 ^ nat (bitlen n)"
      using bitlen_nonneg [of n] by (simp add: power_int_minus power_int_def field_simps)
    ultimately show ?thesis using False
      by (simp add: ilog2_def n_def)
  qed
  show "x < 2 powi (ilog2 x + 1)"
  proof (cases "1 \<le> x")
    case True
    then have n: "0 < \<lfloor>x\<rfloor>" by linarith
    from bitlen_bounds [OF n] have "\<lfloor>x\<rfloor> + 1 \<le> 2 ^ nat (bitlen \<lfloor>x\<rfloor>)" by simp
    then have "(of_int (\<lfloor>x\<rfloor> + 1) :: rat) \<le> 2 ^ nat (bitlen \<lfloor>x\<rfloor>)"
      by (rule of_int_le_pow2)
    moreover have "x < of_int (\<lfloor>x\<rfloor> + 1)" by linarith
    ultimately have "x < 2 ^ nat (bitlen \<lfloor>x\<rfloor>)" by (rule less_le_trans [rotated])
    moreover have "0 \<le> bitlen \<lfloor>x\<rfloor>" by (rule bitlen_nonneg)
    ultimately show ?thesis using True by (simp add: ilog2_def power_int_def)
  next
    case False
    define n where "n = \<lceil>1 / x\<rceil> - 1"
    from False assms have "1 < 1 / x" by simp
    then have n: "0 < n" unfolding n_def by linarith
    have b: "1 \<le> bitlen n" using n by (simp add: bitlen_alt_def)
    from bitlen_bounds [OF n] have "2 ^ nat (bitlen n - 1) \<le> n" by simp
    then have "(2::rat) ^ nat (bitlen n - 1) \<le> of_int n"
      by (rule pow2_le_of_int)
    moreover have "of_int n < 1 / x" unfolding n_def by linarith
    ultimately have "2 ^ nat (bitlen n - 1) < 1 / x" by (rule le_less_trans)
    then have "x < 1 / 2 ^ nat (bitlen n - 1)" using assms
      by (simp add: field_simps)
    moreover have "(2::rat) powi (- bitlen n + 1) = 1 / 2 ^ nat (bitlen n - 1)"
    proof -
      have "(2::rat) powi (- bitlen n + 1) = 2 powi (- (bitlen n - 1))" by simp
      also have "\<dots> = 1 / 2 ^ nat (bitlen n - 1)"
        using b by (simp only: power_int_minus) (simp add: power_int_def field_simps)
      finally show ?thesis .
    qed
    ultimately show ?thesis using False
      by (simp add: ilog2_def n_def)
  qed
qed

subsection \<open>Rounding to binary64\<close>

lemma pow2_less_cancel: "(2::rat) powi a < 2 powi b \<Longrightarrow> a < b"
proof (rule ccontr)
  assume lt: "(2::rat) powi a < 2 powi b" and "\<not> a < b"
  then have "b \<le> a" by simp
  then have "(2::rat) powi b \<le> 2 powi a" by (rule power_int_increasing) simp
  with lt show False by simp
qed

lemma ilog2_unique:
  assumes "0 < x" and "2 powi e \<le> x" and "x < 2 powi (e + 1)"
  shows "ilog2 x = e"
proof -
  from ilog2_bounds [OF assms(1)] assms(2,3)
  have a: "(2::rat) powi ilog2 x < 2 powi (e + 1)" and b: "(2::rat) powi e < 2 powi (ilog2 x + 1)"
    by linarith+
  from a have "ilog2 x < e + 1" by (rule pow2_less_cancel)
  moreover from b have "e < ilog2 x + 1" by (rule pow2_less_cancel)
  ultimately show ?thesis by simp
qed

lemma ilog2_mono:
  assumes "0 < x" and "x \<le> y"
  shows "ilog2 x \<le> ilog2 y"
proof -
  from assms have y: "0 < y" by simp
  from ilog2_bounds(1) [OF assms(1)] ilog2_bounds(2) [OF y] assms(2)
  have "(2::rat) powi ilog2 x < 2 powi (ilog2 y + 1)" by linarith
  then have "ilog2 x < ilog2 y + 1" by (rule pow2_less_cancel)
  then show ?thesis by simp
qed

lemma ilog2_zero [simp]: "ilog2 0 = 0"
  by (simp add: ilog2_def bitlen_eq_zero_iff)

lemma ulp_pos [simp]: "0 < ulp a"
  by (simp add: ulp_def)

lemma ulp_nonneg [simp]: "0 \<le> ulp a"
  by (rule less_imp_le) (rule ulp_pos)

lemma round_mag_nonneg: "0 \<le> a \<Longrightarrow> 0 \<le> round_mag a"
proof -
  assume "0 \<le> a"
  then have "of_int 0 \<le> a / ulp a" by simp
  then have "0 \<le> round_half_even (a / ulp a)" by (rule rhe_lower)
  then show ?thesis by (simp add: round_mag_def)
qed

lemma pow2_split: "(2::rat) powi (e + 1) = 2 ^ 53 * 2 powi (e - 52)"
proof -
  have "(2::rat) powi (e + 1) = 2 powi (53 + (e - 52))"
    by (rule arg_cong [where f = "power_int 2"]) simp
  also have "\<dots> = 2 powi 53 * 2 powi (e - 52)" by (rule power_int_add) simp
  finally show ?thesis by simp
qed

lemma pow2_split': "(2::rat) powi e = 2 ^ 52 * 2 powi (e - 52)"
proof -
  have "(2::rat) powi e = 2 powi (52 + (e - 52))"
    by (rule arg_cong [where f = "power_int 2"]) simp
  also have "\<dots> = 2 powi 52 * 2 powi (e - 52)" by (rule power_int_add) simp
  finally show ?thesis by simp
qed

lemma round_mag_upper:
  assumes "0 < a"
  shows "round_mag a \<le> 2 powi (max (ilog2 a) (- 1022) + 1)"
proof -
  define e where "e = max (ilog2 a) (- 1022)"
  have u: "ulp a = 2 powi (e - 52)" by (simp add: ulp_def e_def)
  have "a < 2 powi (ilog2 a + 1)" by (rule ilog2_bounds(2) [OF assms])
  also have "\<dots> \<le> 2 powi (e + 1)" by (rule power_int_increasing) (simp_all add: e_def)
  finally have "a < 2 ^ 53 * ulp a" by (simp add: pow2_split u)
  then have "a / ulp a \<le> of_int (2 ^ 53)" by (simp add: pos_divide_le_eq)
  then have "round_half_even (a / ulp a) \<le> 2 ^ 53" by (rule rhe_upper)
  then have "(of_int (round_half_even (a / ulp a)) :: rat) \<le> 2 ^ 53" by (rule of_int_le_pow2)
  then have "round_mag a \<le> 2 ^ 53 * ulp a"
    unfolding round_mag_def by (rule mult_right_mono) simp
  then show ?thesis by (simp add: pow2_split u e_def)
qed

lemma round_mag_lower:
  assumes "0 < a" and "- 1022 \<le> ilog2 a"
  shows "2 powi ilog2 a \<le> round_mag a"
proof -
  have u: "ulp a = 2 powi (ilog2 a - 52)" using assms(2) by (simp add: ulp_def max_def)
  have "2 ^ 52 * ulp a \<le> a" using ilog2_bounds(1) [OF assms(1)] by (simp add: pow2_split' [of "ilog2 a"] u)
  then have "of_int (2 ^ 52) \<le> a / ulp a" by (simp add: pos_le_divide_eq)
  then have "2 ^ 52 \<le> round_half_even (a / ulp a)" by (rule rhe_lower)
  then have "(2::rat) ^ 52 \<le> of_int (round_half_even (a / ulp a))" by (rule pow2_le_of_int)
  then have "2 ^ 52 * ulp a \<le> round_mag a"
    unfolding round_mag_def by (rule mult_right_mono) simp
  then show ?thesis by (simp add: pow2_split' [of "ilog2 a"] u)
qed

lemma round_mag_mono:
  assumes "0 < a" and "a \<le> b"
  shows "round_mag a \<le> round_mag b"
proof -
  from assms have b: "0 < b" by simp
  define ea where "ea = max (ilog2 a) (- 1022)"
  define eb where "eb = max (ilog2 b) (- 1022)"
  have le: "ea \<le> eb" using ilog2_mono [OF assms] by (simp add: ea_def eb_def)
  show ?thesis
  proof (cases "ea = eb")
    case True
    then have u: "ulp a = ulp b" by (simp add: ulp_def ea_def eb_def)
    have "a / ulp b \<le> b / ulp b" using assms(2) by (rule divide_right_mono) simp
    then have "round_half_even (a / ulp b) \<le> round_half_even (b / ulp b)" by (rule rhe_mono)
    then have "(of_int (round_half_even (a / ulp b)) :: rat) \<le> of_int (round_half_even (b / ulp b))"
      by simp
    then show ?thesis unfolding round_mag_def u by (rule mult_right_mono) simp
  next
    case False
    with le have lt: "ea < eb" by simp
    then have n: "- 1022 \<le> ilog2 b" and eb: "eb = ilog2 b"
      by (simp_all add: ea_def eb_def max_def split: if_splits)
    have "round_mag a \<le> 2 powi (ea + 1)" unfolding ea_def by (rule round_mag_upper [OF assms(1)])
    also have "\<dots> \<le> 2 powi eb" using lt by (intro power_int_increasing) simp_all
    also have "\<dots> \<le> round_mag b" unfolding eb by (rule round_mag_lower [OF b n])
    finally show ?thesis .
  qed
qed

lemma overflow_iff:
  assumes "0 \<le> y"
  shows "1024 \<le> ilog2 y \<longleftrightarrow> 2 ^ 1024 \<le> y"
proof (cases "y = 0")
  case True
  then show ?thesis by simp
next
  case False
  with assms have y: "0 < y" by simp
  show ?thesis
  proof
    assume "1024 \<le> ilog2 y"
    then have "(2::rat) powi 1024 \<le> 2 powi ilog2 y" by (intro power_int_increasing) simp_all
    also have "\<dots> \<le> y" by (rule ilog2_bounds(1) [OF y])
    finally show "2 ^ 1024 \<le> y" by simp
  next
    assume "2 ^ 1024 \<le> y"
    then have "(2::rat) powi 1024 \<le> y" by simp
    also have "y < 2 powi (ilog2 y + 1)" by (rule ilog2_bounds(2) [OF y])
    finally have "(1024::int) < ilog2 y + 1" by (rule pow2_less_cancel)
    then show "1024 \<le> ilog2 y" by simp
  qed
qed

lemma fl_pos:
  "0 < x \<Longrightarrow> fl x = (if 2 ^ 1024 \<le> round_mag x then PInf else Fin (round_mag x))"
  using overflow_iff [OF round_mag_nonneg, of x] by (simp add: fl_def Let_def)

lemma fl_neg:
  "x < 0 \<Longrightarrow> fl x = (if 2 ^ 1024 \<le> round_mag (- x) then NInf else Fin (- round_mag (- x)))"
  using overflow_iff [OF round_mag_nonneg, of "- x"] by (simp add: fl_def Let_def)

lemma fl_zero [simp]: "fl 0 = Fin 0"
  by (simp add: fl_def)

lemma rhe_numeral [simp]: "round_half_even (numeral n) = numeral n"
  using rhe_of_int [of "numeral n"] by simp

lemma rhe_zero [simp]: "round_half_even 0 = 0"
  using rhe_of_int [of 0] by simp

lemma rhe_eval:
  assumes "of_int m - 1 / 2 < x" and "x < of_int m + 1 / 2"
  shows "round_half_even x = m"
proof -
  from rhe_near [of x] assms
  have "\<bar>(of_int (round_half_even x) :: rat) - of_int m\<bar> < 1" by linarith
  then have "\<bar>(of_int (round_half_even x - m) :: rat)\<bar> < of_int 1" by simp
  then have "\<bar>round_half_even x - m\<bar> < 1"
    by (simp only: of_int_abs [symmetric] of_int_less_iff)
  then show ?thesis by simp
qed

lemma fl_eval:
  assumes "0 < x" and "2 powi e \<le> x" and "x < 2 powi (e + 1)"
    and "- 1022 \<le> e" and "e < 1023"
    and "round_half_even (x / 2 powi (e - 52)) = m"
  shows "fl x = Fin (of_int m * 2 powi (e - 52))"
proof -
  have i: "ilog2 x = e" by (rule ilog2_unique [OF assms(1-3)])
  have u: "ulp x = 2 powi (e - 52)" using assms(4) by (simp add: ulp_def i max_def)
  have rm: "round_mag x = of_int m * 2 powi (e - 52)"
    by (simp add: round_mag_def u assms(6))
  have "round_mag x \<le> 2 powi (e + 1)"
    using round_mag_upper [OF assms(1)] i assms(4) by (simp add: max_def)
  also have "\<dots> \<le> 2 powi 1023" using assms(5) by (intro power_int_increasing) simp_all
  also have "\<dots> < 2 powi 1024" by (intro power_int_strict_increasing) simp_all
  finally have "\<not> 2 ^ 1024 \<le> round_mag x" by simp
  then show ?thesis by (simp add: fl_pos assms(1) rm)
qed

lemma fl_minus: "fl (- x) = (case fl x of Fin y \<Rightarrow> Fin (- y) | PInf \<Rightarrow> NInf | NInf \<Rightarrow> PInf | NaN \<Rightarrow> NaN)"
  by (cases "x = 0"; cases "0 < x") (simp_all add: fl_pos fl_neg)

lemma ulp_nonzero [simp]: "ulp a \<noteq> 0"
  by (simp add: ulp_def)

lemma round_mag_error:
  assumes "0 < a" and "a < 2 powi k" and "- 1021 \<le> k"
  shows "\<bar>round_mag a - a\<bar> \<le> 2 powi (k - 54)" and "round_mag a \<le> 2 powi k"
proof -
  define e where "e = max (ilog2 a) (- 1022)"
  have "2 powi ilog2 a < (2::rat) powi k"
    using ilog2_bounds(1) [OF assms(1)] assms(2) by linarith
  then have "ilog2 a < k" by (rule pow2_less_cancel)
  with assms(3) have ek: "e + 1 \<le> k" by (simp add: e_def)
  have u: "ulp a = 2 powi (e - 52)" by (simp add: ulp_def e_def)
  have "round_mag a \<le> 2 powi (e + 1)" unfolding e_def by (rule round_mag_upper [OF assms(1)])
  also have "\<dots> \<le> 2 powi k" using ek by (intro power_int_increasing) simp_all
  finally show "round_mag a \<le> 2 powi k" .
  have "round_mag a - a = (of_int (round_half_even (a / ulp a)) - a / ulp a) * ulp a"
    by (simp add: round_mag_def left_diff_distrib)
  then have "\<bar>round_mag a - a\<bar> = \<bar>of_int (round_half_even (a / ulp a)) - a / ulp a\<bar> * ulp a"
    by (simp only: abs_mult) simp
  also have "\<dots> \<le> 1 / 2 * ulp a" by (intro mult_right_mono rhe_near) simp
  also have "\<dots> = 2 powi (e - 53)"
  proof -
    have "(2::rat) powi (e - 52) = 2 powi (1 + (e - 53))"
      by (rule arg_cong [where f = "power_int 2"]) simp
    also have "\<dots> = 2 powi 1 * 2 powi (e - 53)" by (rule power_int_add) simp
    finally show ?thesis by (simp add: u)
  qed
  also have "\<dots> \<le> 2 powi (k - 54)" using ek by (intro power_int_increasing) simp_all
  finally show "\<bar>round_mag a - a\<bar> \<le> 2 powi (k - 54)" .
qed

lemma fl_error:
  assumes "\<bar>z\<bar> < 2 powi k" and "- 1021 \<le> k" and "k \<le> 1023"
  shows "\<exists>y. fl z = Fin y \<and> \<bar>y - z\<bar> \<le> 2 powi (k - 54) \<and> \<bar>y\<bar> \<le> 2 powi k"
proof (cases "z = 0")
  case True
  then show ?thesis by simp
next
  case False
  then have a: "0 < \<bar>z\<bar>" by simp
  note e = round_mag_error [OF a assms(1,2)]
  have "round_mag \<bar>z\<bar> \<le> 2 powi k" by (rule e(2))
  also have "\<dots> \<le> 2 powi 1023" using assms(3) by (intro power_int_increasing) simp_all
  also have "\<dots> < 2 powi 1024" by (intro power_int_strict_increasing) simp_all
  finally have n: "\<not> 2 ^ 1024 \<le> round_mag \<bar>z\<bar>" by simp
  have nn: "0 \<le> round_mag \<bar>z\<bar>" by (rule round_mag_nonneg) simp
  show ?thesis
  proof (cases "0 < z")
    case True
    then have "fl z = Fin (round_mag z)" using n by (simp add: fl_pos)
    then show ?thesis using e nn True by simp
  next
    case False
    with \<open>z \<noteq> 0\<close> have neg: "z < 0" by simp
    then have "fl z = Fin (- round_mag (- z))" using n by (simp add: fl_neg)
    moreover have "\<bar>- round_mag (- z) - z\<bar> = \<bar>round_mag \<bar>z\<bar> - \<bar>z\<bar>\<bar>"
      using neg by simp
    ultimately show ?thesis using e nn neg by simp
  qed
qed

subsection \<open>Rounding is monotone\<close>

lemma fp_le_simps [simp]:
  "fp_le (Fin a) (Fin b) \<longleftrightarrow> a \<le> b"
  "fp_le NInf x \<longleftrightarrow> x \<noteq> NaN"
  "fp_le x PInf \<longleftrightarrow> x \<noteq> NaN"
  "\<not> fp_le PInf (Fin b)"
  "\<not> fp_le (Fin a) NInf"
  "\<not> fp_le PInf NInf"
  "\<not> fp_le NaN x"
  "\<not> fp_le x NaN"
  by (cases x; auto simp add: fp_le_def)+

lemma fp_lt_imp_le: "fp_lt a b \<Longrightarrow> fp_le a b"
  by (cases a; cases b) auto

lemma fl_cases_pos:
  assumes "0 < x"
  obtains "fl x = PInf" "2 ^ 1024 \<le> round_mag x"
  | "fl x = Fin (round_mag x)" "round_mag x < 2 ^ 1024"
  using assms by (cases "(2::rat) ^ 1024 \<le> round_mag x") (auto simp add: fl_pos)

lemma fl_mono_pos:
  assumes "0 < x" and "x \<le> y"
  shows "fp_le (fl x) (fl y)"
proof -
  from assms have y: "0 < y" by simp
  from round_mag_mono [OF assms] have "round_mag x \<le> round_mag y" .
  then show ?thesis using assms(1) y by (auto simp add: fl_pos)
qed

lemma fl_nonneg: "0 \<le> x \<Longrightarrow> fp_le (Fin 0) (fl x)"
  using round_mag_nonneg [of x] by (cases "x = 0") (auto simp add: fl_pos)

lemma fp_le_minus:
  "fp_le a b \<Longrightarrow>
   fp_le (case b of Fin y \<Rightarrow> Fin (- y) | PInf \<Rightarrow> NInf | NInf \<Rightarrow> PInf | NaN \<Rightarrow> NaN)
         (case a of Fin y \<Rightarrow> Fin (- y) | PInf \<Rightarrow> NInf | NInf \<Rightarrow> PInf | NaN \<Rightarrow> NaN)"
  by (cases a; cases b) auto

lemma fp_le_trans: "fp_le a b \<Longrightarrow> fp_le b c \<Longrightarrow> fp_le a c"
  by (cases a; cases b; cases c) auto

lemma fl_mono:
  assumes "x \<le> y"
  shows "fp_le (fl x) (fl y)"
proof -
  consider "0 < x" | "x \<le> 0" "0 \<le> y" | "y < 0" by linarith
  then show ?thesis
  proof cases
    case 1
    then show ?thesis using assms by (rule fl_mono_pos)
  next
    case 2
    from 2(1) have "fp_le (Fin 0) (fl (- x))" by (intro fl_nonneg) simp
    then have "fp_le (fl x) (Fin 0)"
      using fp_le_minus [of "Fin 0" "fl (- x)"] by (simp add: fl_minus [of "- x", simplified])
    moreover from 2(2) have "fp_le (Fin 0) (fl y)" by (rule fl_nonneg)
    ultimately show ?thesis by (rule fp_le_trans)
  next
    case 3
    with assms have "0 < - y" "- y \<le> - x" by simp_all
    then have "fp_le (fl (- y)) (fl (- x))" by (rule fl_mono_pos)
    from fp_le_minus [OF this] show ?thesis
      by (simp add: fl_minus [symmetric])
  qed
qed

lemma fl_not_NaN [simp]: "fl x \<noteq> NaN"
  using fl_mono [of x x] by (auto simp add: fp_le_def)

subsection \<open>The calibration constants and the boundary scores\<close>

lemma max_score_value: "max_score = Fin (3602879701896397 / 18014398509481984)"
  unfolding max_score_def
  by (rule trans [OF fl_eval [where e = "- 3" and m = 7205759403792794]])
     (simp_all add: rhe_eval)

lemma min_score_value: "min_score = Fin (- (3602879701896397 / 18014398509481984))"
  using max_score_value by (simp add: min_score_def max_score_def fl_minus)

lemma score_span_value:
  "fsub max_score min_score = Fin (3602879701896397 / 9007199254740992)"
  unfolding max_score_value min_score_value fsub.simps
  by (rule trans [OF fl_eval [where e = "- 2" and m = 7205759403792794]])
     (simp_all add: rhe_eval)

lemma fsub_max_score_zero: "fsub max_score (Fin 0) = max_score"
  unfolding max_score_value fsub.simps
  by (rule trans [OF fl_eval [where e = "- 3" and m = 7205759403792794]])
     (simp_all add: rhe_eval)

lemma fmul_100_max_score: "fmul (Fin 100) max_score = Fin 20"
  unfolding max_score_value fmul.simps
  by (rule trans [OF fl_eval [where e = 4 and m = 5629499534213120]])
     (simp_all add: rhe_eval)

lemma fdiv_20_span: "fdiv (Fin 20) (fsub max_score min_score) = Fin 50"
  unfolding score_span_value fdiv.simps
  by (simp, rule trans [OF fl_eval [where e = 5 and m = 7036874417766400]])
     (simp_all add: rhe_eval)

lemma fmul_100_span: "fmul (Fin 100) (fsub max_score min_score) = Fin 40"
  unfolding score_span_value fmul.simps
  by (rule trans [OF fl_eval [where e = 5 and m = 5629499534213120]])
     (simp_all add: rhe_eval)

lemma fdiv_40_span: "fdiv (Fin 40) (fsub max_score min_score) = Fin 100"
  unfolding score_span_value fdiv.simps
  by (simp, rule trans [OF fl_eval [where e = 6 and m = 7036874417766400]])
     (simp_all add: rhe_eval)

lemma fsub_max_score_self: "fsub max_score max_score = Fin 0"
  by (simp add: max_score_value)

lemma fdiv_0_span: "fdiv (fmul (Fin 100) (Fin 0)) (fsub max_score min_score) = Fin 0"
  by (simp add: score_span_value)

lemma risk_raw_at_zero: "risk_raw (Fin 0) = Fin 50"
  by (simp only: risk_raw_def fsub_max_score_zero fmul_100_max_score fdiv_20_span)

lemma risk_raw_at_min_score: "risk_raw min_score = Fin 100"
  by (simp only: risk_raw_def fmul_100_span fdiv_40_span)

lemma risk_raw_at_max_score: "risk_raw max_score = Fin 0"
  by (simp only: risk_raw_def fsub_max_score_self fdiv_0_span)

lemma normalize_at_zero: "normalize (Fin 0) = Inr 50"
  by (simp add: normalize_def risk_clamped_def risk_raw_at_zero py_min_100_def py_max_0_def)

lemma normalize_at_min_score: "normalize min_score = Inr 100"
  by (simp add: normalize_def risk_clamped_def risk_raw_at_min_score py_min_100_def py_max_0_def)

lemma normalize_at_max_score: "normalize max_score = Inr 0"
  by (simp add: normalize_def risk_clamped_def risk_raw_at_max_score py_min_100_def py_max_0_def)

subsection \<open>The risk is non-increasing in the score\<close>

lemma fsub_antimono:
  "fp_le a b \<Longrightarrow> fp_le (fsub (Fin c) b) (fsub (Fin c) a)"
  by (cases a; cases b) (auto intro: fl_mono)

lemma fmul_mono:
  "0 < c \<Longrightarrow> fp_le a b \<Longrightarrow> fp_le (fmul (Fin c) a) (fmul (Fin c) b)"
  by (cases a; cases b) (auto intro: fl_mono)

lemma fdiv_mono:
  "0 < d \<Longrightarrow> fp_le a b \<Longrightarrow> fp_le (fdiv a (Fin d)) (fdiv b (Fin d))"
  by (cases a; cases b) (auto intro: fl_mono simp add: divide_right_mono)

lemma risk_raw_antimono:
  assumes "fp_le a b"
  shows "fp_le (risk_raw b) (risk_raw a)"
proof -
  have "fp_le (fsub max_score b) (fsub max_score a)"
    unfolding max_score_value using assms by (rule fsub_antimono)
  then have "fp_le (fmul (Fin 100) (fsub max_score b)) (fmul (Fin 100) (fsub max_score a))"
    by (intro fmul_mono) simp_all
  then show ?thesis
    unfolding risk_raw_def score_span_value by (intro fdiv_mono) simp_all
qed

lemma clamp_mono:
  assumes "fp_le a b"
  shows "\<exists>x y. py_max_0 (py_min_100 a) = Fin x \<and> py_max_0 (py_min_100 b) = Fin y \<and> x \<le> y"
  using assms by (cases a; cases b) (auto simp add: py_max_0_def py_min_100_def)

lemma normalize_antimono:
  assumes "fp_le a b"
  shows "\<exists>ra rb. normalize a = Inr ra \<and> normalize b = Inr rb \<and> rb \<le> ra"
proof -
  from clamp_mono [OF risk_raw_antimono [OF assms]]
  obtain x y where "risk_clamped b = Fin x" "risk_clamped a = Fin y" "x \<le> y"
    by (auto simp add: risk_clamped_def)
  then show ?thesis by (simp add: normalize_def rhe_mono)
qed

subsection \<open>The range of the risk percentage\<close>

lemma risk_clamped_range: "\<exists>c. risk_clamped s = Fin c \<and> 0 \<le> c \<and> c \<le> 100"
  by (cases "risk_raw s") (auto simp add: risk_clamped_def py_min_100_def py_max_0_def)

lemma normalize_range: "\<exists>r. normalize s = Inr r \<and> 0 \<le> r \<and> r \<le> 100"
proof -
  from risk_clamped_range obtain c where c: "risk_clamped s = Fin c" "0 \<le> c" "c \<le> 100"
    by blast
  have "0 \<le> round_half_even c" using c(2) rhe_lower [of 0 c] by simp
  moreover have "round_half_even c \<le> 100" using c(3) rhe_upper [of c 100] by simp
  ultimately show ?thesis using c(1) by (simp add: normalize_def)
qed

subsection \<open>Accuracy of the computed risk\<close>

lemma risk_raw_accuracy:
  assumes "- (3602879701896397 / 18014398509481984) \<le> x"
    and "x \<le> 3602879701896397 / 18014398509481984"
  shows "\<exists>c. risk_raw (Fin x) = Fin c \<and> \<bar>c - (50 - 250 * x)\<bar> \<le> 1 / 2 ^ 44"
proof -
  have "\<bar>3602879701896397 / 18014398509481984 - x\<bar> < 2 powi (- 1)"
    using assms by (simp add: abs_less_iff)
  from fl_error [OF this] obtain a
    where a: "fl (3602879701896397 / 18014398509481984 - x) = Fin a"
      "\<bar>a - (3602879701896397 / 18014398509481984 - x)\<bar> \<le> 2 powi (- 55)"
      "\<bar>a\<bar> \<le> 2 powi (- 1)"
    by auto
  have "\<bar>100 * a\<bar> < 2 powi 6" using a(3) by (simp add: abs_mult)
  from fl_error [OF this] obtain b
    where b: "fl (100 * a) = Fin b" "\<bar>b - 100 * a\<bar> \<le> 2 powi (- 48)" "\<bar>b\<bar> \<le> 2 powi 6"
    by auto
  have "\<bar>b / (3602879701896397 / 9007199254740992)\<bar> < 2 powi 8"
    using b(3) by (simp add: abs_less_iff abs_le_iff)
  from fl_error [OF this] obtain c
    where c: "fl (b / (3602879701896397 / 9007199254740992)) = Fin c"
      "\<bar>c - b / (3602879701896397 / 9007199254740992)\<bar> \<le> 2 powi (- 46)"
    by auto
  have d: "fdiv (Fin b) (Fin (3602879701896397 / 9007199254740992)) =
      fl (b / (3602879701896397 / 9007199254740992))"
    by simp
  have "risk_raw (Fin x) = Fin c"
    unfolding risk_raw_def score_span_value unfolding max_score_value
    by (simp only: fsub.simps fmul.simps a(1) b(1) c(1) d)
  moreover have "\<bar>c - (50 - 250 * x)\<bar> \<le> 1 / 2 ^ 44"
  proof -
    have p: "(2::rat) powi (- 55) = 1 / 2 ^ 55" "(2::rat) powi (- 48) = 1 / 2 ^ 48"
      "(2::rat) powi (- 46) = 1 / 2 ^ 46"
      by simp_all
    note i = a(2) [unfolded abs_le_iff p] b(2) [unfolded abs_le_iff p]
      c(2) [unfolded abs_le_iff p]
    have "c - (50 - 250 * x) \<le> 1 / 2 ^ 44" using i assms by simp
    moreover have "- (c - (50 - 250 * x)) \<le> 1 / 2 ^ 44" using i assms by simp
    ultimately show ?thesis unfolding abs_le_iff ..
  qed
  ultimately show ?thesis by blast
qed

lemma risk_clamped_finite:
  "risk_raw s = Fin c \<Longrightarrow> risk_clamped s = Fin (max 0 (min 100 c))"
  by (simp add: risk_clamped_def py_min_100_def py_max_0_def max_def min_def)

lemma risk_clamped_low:
  assumes "x \<le> - (3602879701896397 / 18014398509481984)"
  shows "risk_clamped (Fin x) = Fin 100"
proof -
  from assms have "fp_le (Fin x) min_score" by (simp add: min_score_value)
  from risk_raw_antimono [OF this] have "fp_le (Fin 100) (risk_raw (Fin x))"
    by (simp add: risk_raw_at_min_score)
  then show ?thesis
    by (cases "risk_raw (Fin x)") (simp_all add: risk_clamped_def py_min_100_def py_max_0_def)
qed

lemma risk_clamped_high:
  assumes "3602879701896397 / 18014398509481984 \<le> x"
  shows "risk_clamped (Fin x) = Fin 0"
proof -
  from assms have "fp_le max_score (Fin x)" by (simp add: max_score_value)
  from risk_raw_antimono [OF this] have "fp_le (risk_raw (Fin x)) (Fin 0)"
    by (simp add: risk_raw_at_max_score)
  then show ?thesis
    by (cases "risk_raw (Fin x)") (simp_all add: risk_clamped_def py_min_100_def py_max_0_def)
qed

lemma clamp_lipschitz:
  "\<bar>max 0 (min 100 c) - max 0 (min 100 d)\<bar> \<le> \<bar>c - d\<bar>" for c d :: rat
  unfolding max_def min_def by (auto simp add: abs_if)

lemma risk_clamped_accuracy:
  "\<exists>c. risk_clamped (Fin x) = Fin c \<and>
        \<bar>c - max 0 (min 100 (100 * (2 / 10 - x) / (2 / 10 - (- (2 / 10)))))\<bar> \<le> 1 / 2 ^ 44"
proof -
  have f: "100 * (2 / 10 - x) / (2 / 10 - (- (2 / 10))) = 50 - 250 * x" by simp
  consider "x \<le> - (3602879701896397 / 18014398509481984)"
    | "- (3602879701896397 / 18014398509481984) \<le> x" "x \<le> 3602879701896397 / 18014398509481984"
    | "3602879701896397 / 18014398509481984 \<le> x"
    by linarith
  then show ?thesis
  proof cases
    case 1
    then have "max 0 (min 100 (50 - 250 * x)) = 100" by simp
    with risk_clamped_low [OF 1] show ?thesis unfolding f by simp
  next
    case 2
    from risk_raw_accuracy [OF 2] obtain c
      where c: "risk_raw (Fin x) = Fin c" "\<bar>c - (50 - 250 * x)\<bar> \<le> 1 / 2 ^ 44" by blast
    have "\<bar>max 0 (min 100 c) - max 0 (min 100 (50 - 250 * x))\<bar> \<le> \<bar>c - (50 - 250 * x)\<bar>"
      by (rule clamp_lipschitz)
    with c(2) have "\<bar>max 0 (min 100 c) - max 0 (min 100 (50 - 250 * x))\<bar> \<le> 1 / 2 ^ 44"
      by (rule order_trans [rotated])
    with risk_clamped_finite [OF c(1)] show ?thesis unfolding f by blast
  next
    case 3
    then have "max 0 (min 100 (50 - 250 * x)) = 0" by simp
    with risk_clamped_high [OF 3] show ?thesis unfolding f by simp
  qed
qed

lemma normalize_nearest:
  "risk_clamped s = Fin c \<Longrightarrow>
   \<exists>r. normalize s = Inr r \<and> 0 \<le> r \<and> r \<le> 100 \<and> \<bar>of_int r - c\<bar> \<le> 1 / 2"
  using normalize_range [of s] rhe_near [of c] by (auto simp add: normalize_def)

lemma normalize_at_minus_10: "normalize (Fin (- 10)) = Inr 100"
  by (simp add: normalize_def risk_clamped_low)

lemma normalize_at_10: "normalize (Fin 10) = Inr 0"
  by (simp add: normalize_def risk_clamped_high)

text \<open>
  Claim C1. For a finite score \<open>x\<close> the handler computes, in binary64 arithmetic, the
  risk \<open>100 * (max_score - x) / (max_score - min_score)\<close> with \<open>min_score = -0.2\<close> and
  \<open>max_score = 0.2\<close>, clamps it to the interval from 0 to 100 and rounds it to a nearest
  integer: the clamped value differs from the clamped value of the exact formula by at most
  \<open>2 ^ -44\<close>, and the risk percentage is an integer between 0 and 100 within one half of
  the clamped value. Whatever the score, also an infinity or NaN, the result is an integer
  between 0 and 100. The scores -0.2, 0.2, 0.0, -10.0 and 10.0 give 100, 0, 50, 100 and 0.
\<close>

theorem risk_normalizer:
  "(\<exists>c r. risk_clamped (Fin x) = Fin c \<and>
      \<bar>c - max 0 (min 100 (100 * (2 / 10 - x) / (2 / 10 - (- (2 / 10)))))\<bar> \<le> 1 / 2 ^ 44 \<and>
      normalize (Fin x) = Inr r \<and> 0 \<le> r \<and> r \<le> 100 \<and> \<bar>of_int r - c\<bar> \<le> 1 / 2) \<and>
   (\<exists>r. normalize s = Inr r \<and> 0 \<le> r \<and> r \<le> 100) \<and>
   normalize (fl (- (2 / 10))) = Inr 100 \<and>
   normalize (fl (2 / 10)) = Inr 0 \<and>
   normalize (Fin 0) = Inr 50 \<and>
   normalize (Fin (- 10)) = Inr 100 \<and>
   normalize (Fin 10) = Inr 0"
proof -
  from risk_clamped_accuracy [of x] obtain c
    where c: "risk_clamped (Fin x) = Fin c"
      "\<bar>c - max 0 (min 100 (100 * (2 / 10 - x) / (2 / 10 - (- (2 / 10)))))\<bar> \<le> 1 / 2 ^ 44"
    by blast
  from normalize_nearest [OF c(1)] obtain r
    where r: "normalize (Fin x) = Inr r" "0 \<le> r" "r \<le> 100" "\<bar>of_int r - c\<bar> \<le> 1 / 2"
    by blast
  have "\<exists>c r. risk_clamped (Fin x) = Fin c \<and>
      \<bar>c - max 0 (min 100 (100 * (2 / 10 - x) / (2 / 10 - (- (2 / 10)))))\<bar> \<le> 1 / 2 ^ 44 \<and>
      normalize (Fin x) = Inr r \<and> 0 \<le> r \<and> r \<le> 100 \<and> \<bar>of_int r - c\<bar> \<le> 1 / 2"
    using c r by blast
  moreover have "normalize (fl (- (2 / 10))) = Inr 100"
    using normalize_at_min_score by (simp only: min_score_def)
  moreover have "normalize (fl (2 / 10)) = Inr 0"
    using normalize_at_max_score by (simp only: max_score_def)
  ultimately show ?thesis
    using normalize_range [of s] normalize_at_zero normalize_at_minus_10 normalize_at_10
    by (intro conjI)
qed

text \<open>
  Claim C3. Normalization never raises, and it is non-increasing in the raw score: when
  \<open>s1 < s2\<close> holds for two floats, the risk percentage of \<open>s1\<close> is at least that of
  \<open>s2\<close>.
\<close>

theorem normalize_nonincreasing:
  "fp_lt s1 s2 \<Longrightarrow>
   \<exists>r1 r2. normalize s1 = Inr r1 \<and> normalize s2 = Inr r2 \<and> r2 \<le> r1"
  by (rule normalize_antimono) (rule fp_lt_imp_le)

theorem normalize_nonincreasing_witness:
  "fp_lt (Fin 0) (Fin 10) \<and>
   (\<exists>r1 r2. normalize (Fin 0) = Inr r1 \<and> normalize (Fin 10) = Inr r2 \<and> r2 \<le> r1)"
proof -
  have h: "fp_lt (Fin 0) (Fin 10)" by simp
  from normalize_nonincreasing [OF h] h show ?thesis by (intro conjI)
qed

subsection \<open>The handler after a successful load\<close>

lemma handle_predict_loaded:
  "model env = Some m \<Longrightarrow> encoder env = Some enc \<Longrightarrow>
   handle_predict env (Inr (Some input_data)) =
     (if input_data = [] then (ErrorPayload NoInputData, 400)
      else if \<not> validate input_data
      then (ErrorPayload (MissingFields required_input_cols), 400)
      else (case predict m enc (model_input_columns env) input_data of
              Inl e \<Rightarrow> (ErrorPayload (PredictionFailed e), 500)
            | Inr (risk_percentage, anomaly_score_raw) \<Rightarrow>
                (ResultPayload risk_percentage anomaly_score_raw, 200)))"
  by (simp add: handle_predict_def)

lemma validate_iff: "validate d \<longleftrightarrow> (\<forall>c \<in> set required_input_cols. c \<in> fst ` set d)"
  by (simp add: validate_def list_all_iff)

lemma stub_env:
  "load_artifacts (Inr m) (Inr stub_encoder) =
     \<lparr>model = Some m, encoder = Some stub_encoder,
      model_input_columns = numerical_cols @ [''soil_type_loam'', ''soil_type_clay'']\<rparr>"
  by (simp add: load_artifacts_def stub_encoder_def)

lemma failing_env:
  "load_artifacts (Inr m) (Inr failing_encoder) =
     \<lparr>model = Some m, encoder = Some failing_encoder,
      model_input_columns = numerical_cols @ [''soil_type_loam'', ''soil_type_clay'']\<rparr>"
  by (simp add: load_artifacts_def failing_encoder_def)

lemma example_record_valid: "validate example_record" "example_record \<noteq> []"
  by (simp_all add: example_record_def validate_def required_input_cols_def)

subsection \<open>Artifacts that failed to load\<close>

text \<open>
  Claim C8. If loading the anomaly model or loading the encoder raised at start-up, the
  handler answers every request, whatever its body and even when the body cannot be
  parsed, with the dedicated error "Model not loaded" and status 500: the request is
  never looked at.
\<close>

theorem unloaded_artifacts_fail_fast:
  "(\<exists>e. model_load = Inl e) \<or> (\<exists>e. encoder_load = Inl e) \<Longrightarrow>
   handle_predict (load_artifacts model_load encoder_load) request_json =
     (ErrorPayload ModelNotLoaded, 500)"
  by (auto simp add: load_artifacts_def artifacts_failed_def handle_predict_def
      split: sum.splits)

theorem unloaded_artifacts_fail_fast_witness:
  "((\<exists>e. (Inl (Raised ''no such file'') :: exn + anomaly_model) = Inl e) \<or>
    (\<exists>e. (Inr stub_encoder :: exn + encoder) = Inl e)) \<and>
   handle_predict (load_artifacts (Inl (Raised ''no such file'')) (Inr stub_encoder))
     (Inr (Some example_record)) = (ErrorPayload ModelNotLoaded, 500)"
  using unloaded_artifacts_fail_fast
    [of "Inl (Raised ''no such file'')" "Inr stub_encoder" "Inr (Some example_record)"]
  by simp

subsection \<open>Validation\<close>

text \<open>
  Claim C4, as stated, at the empty record: it misses every required field, and the
  handler rejects it at the emptiness check of line 44 with "No input data provided", not
  with the missing-fields error. And when the artifacts failed to load, a record without
  \<open>soil_type\<close> is answered with "Model not loaded" and status 500, before any
  validation.
\<close>

theorem empty_record_not_missing_fields_error:
  "''soil_type'' \<in> set required_input_cols \<and>
   ''soil_type'' \<notin> fst ` set ([] :: json_object) \<and>
   handle_predict (load_artifacts (Inr stub_model) (Inr stub_encoder)) (Inr (Some [])) =
     (ErrorPayload NoInputData, 400) \<and>
   handle_predict (load_artifacts (Inr stub_model) (Inr stub_encoder)) (Inr (Some [])) \<noteq>
     (ErrorPayload (MissingFields required_input_cols), 400) \<and>
   ''soil_type'' \<notin> fst ` set (tl example_record) \<and>
   handle_predict (load_artifacts (Inl (Raised ''no such file'')) (Inr stub_encoder))
     (Inr (Some (tl example_record))) = (ErrorPayload ModelNotLoaded, 500)"
  by (simp add: stub_env handle_predict_loaded required_input_cols_def)
     (simp add: load_artifacts_def artifacts_failed_def handle_predict_def example_record_def)

text \<open>
  Claim C4, amended. With the artifacts loaded, a record that misses at least one of the
  six required fields is answered with status 400; when the record is not empty the error
  is the missing-fields error naming all six required fields, and the empty record gets
  "No input data provided".
\<close>

theorem missing_field_client_error:
  assumes "model env = Some m" and "encoder env = Some enc"
    and "c \<in> set required_input_cols" and "c \<notin> fst ` set input_data"
  shows "handle_predict env (Inr (Some input_data)) =
     (if input_data = [] then (ErrorPayload NoInputData, 400)
      else (ErrorPayload
              (MissingFields
                 [''soil_type'', ''crop_type'', ''tillage_type'', ''season'',
                  ''temp_7day_avg_f'', ''precip_7day_total_in'']), 400))"
proof -
  from assms(3,4) have "\<not> validate input_data"
    unfolding validate_iff by blast
  then show ?thesis
    using assms(1,2) by (simp add: handle_predict_loaded required_input_cols_def)
qed

theorem missing_field_client_error_witness:
  "handle_predict (load_artifacts (Inr stub_model) (Inr stub_encoder))
     (Inr (Some (tl example_record))) =
     (ErrorPayload
        (MissingFields
           [''soil_type'', ''crop_type'', ''tillage_type'', ''season'',
            ''temp_7day_avg_f'', ''precip_7day_total_in'']), 400)"
  using missing_field_client_error
    [of "load_artifacts (Inr stub_model) (Inr stub_encoder)" stub_model stub_encoder
        "''soil_type''" "tl example_record"]
  by (simp add: stub_env required_input_cols_def example_record_def)

text \<open>
  Claim C5, as stated, at a record that has all six keys and \<open>null\<close> for
  \<open>soil_type\<close>: it passes validation, and with artifacts that accept it the handler
  answers 200.
\<close>

theorem null_value_passes_validation:
  "validate null_soil_record \<and> map_of null_soil_record ''soil_type'' = Some JNull \<and>
   handle_predict (load_artifacts (Inr stub_model) (Inr stub_encoder))
     (Inr (Some null_soil_record)) = (ResultPayload 50 (Fin 0), 200)"
  by (simp add: stub_env handle_predict_loaded)
     (simp add: null_soil_record_def validate_def required_input_cols_def predict_def
        features_final_def features_combined_def categorical_cols_def numerical_cols_def
        stub_encoder_def encoded_frame_def reindex_def stub_model_def normalize_at_zero)

text \<open>
  Claim C5, amended. A record passes validation exactly when each of the six required keys
  is present with some value; the values are not inspected.
\<close>

theorem validate_checks_keys_only:
  "validate input_data \<longleftrightarrow> (\<forall>c \<in> set required_input_cols. \<exists>v. (c, v) \<in> set input_data)"
  by (force simp add: validate_def list_all_iff)

theorem validate_checks_keys_only_witness:
  "map fst null_soil_record = required_input_cols \<and>
   (''soil_type'', JNull) \<in> set null_soil_record \<and> validate null_soil_record"
proof -
  have "\<forall>c \<in> set required_input_cols. \<exists>v. (c, v) \<in> set null_soil_record"
    by (simp add: null_soil_record_def required_input_cols_def)
  then have "validate null_soil_record"
    using validate_checks_keys_only [of null_soil_record] by blast
  then show ?thesis
    by (simp add: null_soil_record_def required_input_cols_def)
qed

subsection \<open>Failures of the encoder and of the model\<close>

text \<open>
  Claim C7, as stated, at an encoder whose transform raises and at a model whose scoring
  raises, both with the message "boom": the two responses are the same "Prediction failed"
  error, so the failure kinds are not told apart.
\<close>

theorem encoder_and_model_failure_same_response:
  "handle_predict (load_artifacts (Inr stub_model) (Inr failing_encoder))
     (Inr (Some example_record)) = (ErrorPayload (PredictionFailed (Raised ''boom'')), 500) \<and>
   handle_predict (load_artifacts (Inr failing_model) (Inr stub_encoder))
     (Inr (Some example_record)) = (ErrorPayload (PredictionFailed (Raised ''boom'')), 500)"
  by (simp add: stub_env failing_env handle_predict_loaded example_record_valid)
     (simp add: example_record_def predict_def
        features_final_def features_combined_def categorical_cols_def numerical_cols_def
        stub_encoder_def failing_encoder_def encoded_frame_def reindex_def failing_model_def)

text \<open>
  Claim C7, amended. For a valid record, an exception of the encoder's transform and an
  exception of the model's scoring are both answered with status 500 and the single error
  "Prediction failed" carrying the exception raised.
\<close>

theorem failure_is_prediction_failed:
  assumes "model env = Some m" and "encoder env = Some enc"
    and "input_data \<noteq> []" and "validate input_data"
  shows "(select_cols input_data categorical_cols = Inr cat_df \<and>
          transform enc cat_df = Inl e \<longrightarrow>
          handle_predict env (Inr (Some input_data)) =
            (ErrorPayload (PredictionFailed e), 500)) \<and>
         (features_final enc (model_input_columns env) input_data = Inr features \<and>
          m features = Inl e \<longrightarrow>
          handle_predict env (Inr (Some input_data)) =
            (ErrorPayload (PredictionFailed e), 500))"
  using assms
  by (simp add: handle_predict_loaded predict_def features_final_def features_combined_def)

theorem failure_is_prediction_failed_witness:
  "select_cols example_record categorical_cols =
     Inr [(''soil_type'', JStr ''loam''), (''crop_type'', JStr ''corn''),
          (''tillage_type'', JStr ''no-till''), (''season'', JStr ''spring'')] \<and>
   transform failing_encoder
     [(''soil_type'', JStr ''loam''), (''crop_type'', JStr ''corn''),
      (''tillage_type'', JStr ''no-till''), (''season'', JStr ''spring'')] =
     Inl (Raised ''boom'') \<and>
   handle_predict (load_artifacts (Inr stub_model) (Inr failing_encoder))
     (Inr (Some example_record)) = (ErrorPayload (PredictionFailed (Raised ''boom'')), 500)"
  using failure_is_prediction_failed
    [of "load_artifacts (Inr stub_model) (Inr failing_encoder)" stub_model failing_encoder
        example_record
        "[(''soil_type'', JStr ''loam''), (''crop_type'', JStr ''corn''),
          (''tillage_type'', JStr ''no-till''), (''season'', JStr ''spring'')]"
        "Raised ''boom''"]
  by (simp add: failing_env example_record_valid)
     (simp add: example_record_def categorical_cols_def failing_encoder_def)

subsection \<open>Extra keys\<close>

lemma select_cols_cong:
  "(\<forall>c \<in> set cs. map_of d1 c = map_of d2 c) \<Longrightarrow> select_cols d1 cs = select_cols d2 cs"
  by (induction cs) (simp_all split: option.splits sum.splits)

text \<open>
  Claim C10. Two valid records that agree on the six required fields give the same
  feature frame to the model and get the same response (the same risk percentage and raw
  score, or the same error), whatever other keys they carry.
\<close>

theorem extra_keys_ignored:
  assumes "validate d1" and "validate d2"
    and "\<forall>c \<in> set required_input_cols. map_of d1 c = map_of d2 c"
  shows "features_final enc cols d1 = features_final enc cols d2 \<and>
         handle_predict env (Inr (Some d1)) = handle_predict env (Inr (Some d2))"
proof -
  have cat: "select_cols d1 categorical_cols = select_cols d2 categorical_cols"
    using assms(3)
    by (intro select_cols_cong) (simp add: required_input_cols_def categorical_cols_def)
  have num: "select_cols d1 numerical_cols = select_cols d2 numerical_cols"
    using assms(3)
    by (intro select_cols_cong) (simp add: required_input_cols_def numerical_cols_def)
  have ff: "features_final enc' cols' d1 = features_final enc' cols' d2" for enc' cols'
    unfolding features_final_def features_combined_def cat num by (rule refl)
  have ne: "d1 \<noteq> []" "d2 \<noteq> []"
    using assms(1,2) by (auto simp add: validate_def required_input_cols_def)
  have "handle_predict env (Inr (Some d1)) = handle_predict env (Inr (Some d2))"
    using assms(1,2) ne
    by (simp add: handle_predict_def predict_def ff split: option.splits)
  with ff show ?thesis by simp
qed

theorem extra_keys_ignored_witness:
  "validate example_record \<and> validate example_record_extra \<and>
   map (map_of example_record) required_input_cols =
     map (map_of example_record_extra) required_input_cols \<and>
   example_record \<noteq> example_record_extra \<and>
   handle_predict (load_artifacts (Inr stub_model) (Inr stub_encoder))
     (Inr (Some example_record)) =
   handle_predict (load_artifacts (Inr stub_model) (Inr stub_encoder))
     (Inr (Some example_record_extra))"
proof -
  have v: "validate example_record" "validate example_record_extra"
    by (simp_all add: example_record_extra_def example_record_def validate_def
        required_input_cols_def)
  have a: "\<forall>c \<in> set required_input_cols.
      map_of example_record c = map_of example_record_extra c"
    by (simp add: example_record_extra_def example_record_def required_input_cols_def)
  have n: "example_record \<noteq> example_record_extra"
    by (simp add: example_record_extra_def example_record_def)
  from extra_keys_ignored [OF v a] v a n show ?thesis by simp
qed

subsection \<open>Feature assembly\<close>




lemma select_cols_labels: "select_cols df cs = Inr row \<Longrightarrow> map fst row = cs"
  by (induction cs arbitrary: row) (auto split: option.splits sum.splits)

lemma combined_labels:
  assumes "features_combined enc input_df = Inr combined"
    and "get_feature_names_out enc categorical_cols = Inr names"
  shows "map fst combined = numerical_cols @ names"
  using assms
  by (auto simp add: features_combined_def encoded_frame_def select_cols_labels
      split: sum.splits if_splits)

lemma features_final_loaded:
  assumes "features_combined enc input_df = Inr combined"
    and "get_feature_names_out enc categorical_cols = Inr names"
  shows "features_final enc (model_input_columns (load_artifacts (Inr m) (Inr enc))) input_df =
         Inr combined"
  using assms combined_labels [OF assms]
  by (simp add: features_final_def load_artifacts_def reindex_def)



lemma lookup_all_labels:
  "distinct (map fst df) \<Longrightarrow>
   map (\<lambda>c. (c, case map_of df c of Some v \<Rightarrow> v | None \<Rightarrow> d)) (map fst df) = df"
proof (induction df)
  case Nil
  then show ?case by simp
next
  case (Cons a df)
  from Cons.prems have "fst a \<notin> set (map fst df)" by simp
  then have "\<forall>c \<in> set (map fst df). c \<noteq> fst a" by blast
  then have "map (\<lambda>c. (c, case map_of (a # df) c of Some v \<Rightarrow> v | None \<Rightarrow> d)) (map fst df) =
             map (\<lambda>c. (c, case map_of df c of Some v \<Rightarrow> v | None \<Rightarrow> d)) (map fst df)"
    by (intro map_cong) (auto simp del: set_map)
  with Cons show ?case by (cases a) simp
qed

text \<open>
  Claim C9. Reindexing a frame whose column labels are exactly the model's input columns,
  in that order, returns the frame unchanged; and when the labels are distinct, looking
  each column up by its label gives the same frame.
\<close>

theorem reindex_noop_on_model_columns:
  "map fst df = cols \<Longrightarrow>
   reindex cols df = Inr df \<and>
   (distinct cols \<longrightarrow>
      map (\<lambda>c. (c, case map_of df c of Some v \<Rightarrow> v | None \<Rightarrow> JNum (Fin 0))) cols = df)"
  using lookup_all_labels [of df "JNum (Fin 0)"] by (auto simp add: reindex_def)

theorem reindex_noop_on_model_columns_witness:
  "map fst stub_combined = numerical_cols @ [''soil_type_loam'', ''soil_type_clay''] \<and>
   reindex (numerical_cols @ [''soil_type_loam'', ''soil_type_clay'']) stub_combined =
     Inr stub_combined"
proof -
  have l: "map fst stub_combined = numerical_cols @ [''soil_type_loam'', ''soil_type_clay'']"
    by (simp add: stub_combined_def numerical_cols_def)
  from reindex_noop_on_model_columns [OF l] have "reindex
      (numerical_cols @ [''soil_type_loam'', ''soil_type_clay'']) stub_combined =
     Inr stub_combined" by (rule conjunct1)
  with l show ?thesis by (intro conjI)
qed

subsection \<open>Categories unseen at fit time\<close>

lemma one_hot_block_length [simp]: "length (one_hot_block cats v) = length cats"
  by (simp add: one_hot_block_def)

lemma one_hot_block_unseen:
  "v \<notin> JStr ` set cats \<Longrightarrow> one_hot_block cats v = replicate (length cats) (Fin 0)"
  by (induction cats) (auto simp add: one_hot_block_def)

lemma row_numbers_encoded:
  "length names = length xs \<Longrightarrow> \<forall>x \<in> set xs. x = Fin 1 \<or> x = Fin 0 \<Longrightarrow>
   \<exists>qs. row_numbers (zip names (map JNum xs)) = Some qs \<and> length qs = length xs"
proof (induction xs arbitrary: names)
  case Nil
  then show ?case by simp
next
  case (Cons x xs)
  then obtain n ns where names: "names = n # ns" "length ns = length xs"
    by (cases names) auto
  from Cons.IH [OF names(2)] Cons.prems(2)
  obtain qs where "row_numbers (zip ns (map JNum xs)) = Some qs" "length qs = length xs"
    by auto
  moreover from Cons.prems(2) have "x = Fin 1 \<or> x = Fin 0" by simp
  ultimately show ?case using names by auto
qed

lemma one_hot_block_cells: "x \<in> set (one_hot_block cats v) \<Longrightarrow> x = Fin 1 \<or> x = Fin 0"
  by (auto simp add: one_hot_block_def)

text \<open>
  Claim C6. Against a one-hot encoder and a model as the specification describes them, a
  record with all six fields and finite numbers for the two numerical ones, one of whose
  categorical values is not among the categories known for its feature, is answered with
  status 200 and a risk percentage between 0 and 100. The feature frame has the full
  length and the model's input columns as its labels, and the block of slots of that
  feature is all zero. The raw score in the response is the model's score of that very
  frame, and the risk percentage is the normalization of that score.
\<close>

theorem unseen_category_scored:
  assumes "length categories = 4"
    and "validate d"
    and "map_of d ''temp_7day_avg_f'' = Some (JNum (Fin t))"
    and "map_of d ''precip_7day_total_in'' = Some (JNum (Fin p))"
    and "k < 4"
    and "map_of d (categorical_cols ! k) = Some v"
    and "v \<notin> JStr ` set (categories ! k)"
  shows "\<exists>features blocks risk raw.
           features_final (one_hot_encoder categories)
             (numerical_cols @ one_hot_names categorical_cols categories) d = Inr features \<and>
           length features = length (numerical_cols @ one_hot_names categorical_cols categories) \<and>
           map snd features = JNum (Fin t) # JNum (Fin p) # map JNum (concat blocks) \<and>
           map length blocks = map length categories \<and>
           blocks ! k = replicate (length (categories ! k)) (Fin 0) \<and>
           map fst features = numerical_cols @ one_hot_names categorical_cols categories \<and>
           fitted_model score (2 + length (concat categories)) features = Inr raw \<and>
           normalize raw = Inr risk \<and>
           handle_predict
             (load_artifacts (Inr (fitted_model score (2 + length (concat categories))))
                (Inr (one_hot_encoder categories)))
             (Inr (Some d)) = (ResultPayload risk raw, 200) \<and>
           0 \<le> risk \<and> risk \<le> 100"
proof -
  from assms(1) obtain c0 c1 c2 c3 where cats: "categories = [c0, c1, c2, c3]"
    by (auto simp add: length_Suc_conv numeral_eq_Suc)
  from assms(2) have "\<forall>c \<in> set categorical_cols. map_of d c \<noteq> None"
    by (auto simp add: validate_iff required_input_cols_def categorical_cols_def
        map_of_eq_None_iff)
  then obtain v0 v1 v2 v3 where vs:
    "map_of d ''soil_type'' = Some v0" "map_of d ''crop_type'' = Some v1"
    "map_of d ''tillage_type'' = Some v2" "map_of d ''season'' = Some v3"
    by (auto simp add: categorical_cols_def)
  define blocks where "blocks = map2 one_hot_block categories [v0, v1, v2, v3]"
  define names where "names = one_hot_names categorical_cols categories"
  define combined where
    "combined = [(''temp_7day_avg_f'', JNum (Fin t)), (''precip_7day_total_in'', JNum (Fin p))]
                @ zip names (map JNum (concat blocks))"
  have len: "length (concat blocks) = length names"
    by (simp add: blocks_def names_def one_hot_names_def cats categorical_cols_def)
  have len2: "length names = length (concat categories)"
    by (simp add: names_def one_hot_names_def cats categorical_cols_def)
  have bl: "map length blocks = map length categories"
    by (simp add: blocks_def cats)
  have unseen: "blocks ! k = replicate (length (categories ! k)) (Fin 0)"
  proof -
    from assms(5) have k: "k = 0 \<or> k = 1 \<or> k = 2 \<or> k = 3" by auto
    then have "[v0, v1, v2, v3] ! k = v"
      using assms(6) vs by (auto simp add: categorical_cols_def)
    moreover have "blocks ! k = one_hot_block (categories ! k) ([v0, v1, v2, v3] ! k)"
      using k by (auto simp add: blocks_def cats)
    ultimately show ?thesis using assms(7) by (simp add: one_hot_block_unseen)
  qed
  have comb: "features_combined (one_hot_encoder categories) d = Inr combined"
    using len
    by (simp add: features_combined_def categorical_cols_def numerical_cols_def vs assms(3,4)
        one_hot_encoder_def cats one_hot_row_def encoded_frame_def combined_def blocks_def
        names_def)
  have labels: "map fst combined = numerical_cols @ names"
    using len by (simp add: combined_def numerical_cols_def)
  have ff: "features_final (one_hot_encoder categories) (numerical_cols @ names) d = Inr combined"
    using comb labels by (simp add: features_final_def reindex_def)
  have cells: "\<forall>x \<in> set (concat blocks). x = Fin 1 \<or> x = Fin 0"
    by (auto simp add: blocks_def cats dest: one_hot_block_cells)
  from row_numbers_encoded [OF len [symmetric] cells]
  obtain qs where qs: "row_numbers (zip names (map JNum (concat blocks))) = Some qs"
    "length qs = length (concat blocks)" by blast
  have score: "fitted_model score (2 + length (concat categories)) combined =
      Inr (Fin (score (t # p # qs)))"
    using qs len len2 by (simp add: fitted_model_def combined_def)
  from normalize_range obtain r where r:
    "normalize (Fin (score (t # p # qs))) = Inr r" "0 \<le> r" "r \<le> 100" by blast
  have env: "load_artifacts (Inr (fitted_model score (2 + length (concat categories))))
                (Inr (one_hot_encoder categories)) =
     \<lparr>model = Some (fitted_model score (2 + length (concat categories))),
      encoder = Some (one_hot_encoder categories),
      model_input_columns = numerical_cols @ names\<rparr>"
    by (simp add: load_artifacts_def one_hot_encoder_def names_def cats categorical_cols_def)
  have ne: "d \<noteq> []" using assms(3) by auto
  have "handle_predict
             (load_artifacts (Inr (fitted_model score (2 + length (concat categories))))
                (Inr (one_hot_encoder categories)))
             (Inr (Some d)) = (ResultPayload r (Fin (score (t # p # qs))), 200)"
    unfolding env using ne assms(2) ff score r(1)
    by (simp add: handle_predict_loaded predict_def)
  moreover have "map snd combined = JNum (Fin t) # JNum (Fin p) # map JNum (concat blocks)"
    using len by (simp add: combined_def)
  moreover have "length combined = length (numerical_cols @ names)"
    using labels by (metis length_map)
  ultimately have
    "features_final (one_hot_encoder categories)
       (numerical_cols @ one_hot_names categorical_cols categories) d = Inr combined \<and>
     length combined = length (numerical_cols @ one_hot_names categorical_cols categories) \<and>
     map snd combined = JNum (Fin t) # JNum (Fin p) # map JNum (concat blocks) \<and>
     map length blocks = map length categories \<and>
     blocks ! k = replicate (length (categories ! k)) (Fin 0) \<and>
     map fst combined = numerical_cols @ one_hot_names categorical_cols categories \<and>
     fitted_model score (2 + length (concat categories)) combined =
       Inr (Fin (score (t # p # qs))) \<and>
     normalize (Fin (score (t # p # qs))) = Inr r \<and>
     handle_predict
       (load_artifacts (Inr (fitted_model score (2 + length (concat categories))))
          (Inr (one_hot_encoder categories)))
       (Inr (Some d)) = (ResultPayload r (Fin (score (t # p # qs))), 200) \<and>
     0 \<le> r \<and> r \<le> 100"
    using ff bl unseen labels score r unfolding names_def by simp
  then show ?thesis
    by (intro exI [of _ combined] exI [of _ blocks] exI [of _ r]
        exI [of _ "Fin (score (t # p # qs))"])
qed

theorem unseen_category_scored_witness:
  "length example_categories = 4 \<and> validate unseen_soil_record \<and>
   map_of unseen_soil_record (categorical_cols ! 0) = Some (JStr ''peat'') \<and>
   JStr ''peat'' \<notin> JStr ` set (example_categories ! 0) \<and>
   (\<exists>features blocks risk raw.
      features_final (one_hot_encoder example_categories)
        (numerical_cols @ one_hot_names categorical_cols example_categories)
        unseen_soil_record = Inr features \<and>
      length features =
        length (numerical_cols @ one_hot_names categorical_cols example_categories) \<and>
      map snd features = JNum (Fin 68) # JNum (Fin (6 / 5)) # map JNum (concat blocks) \<and>
      map length blocks = map length example_categories \<and>
      blocks ! 0 = replicate (length (example_categories ! 0)) (Fin 0) \<and>
      map fst features =
        numerical_cols @ one_hot_names categorical_cols example_categories \<and>
      fitted_model (\<lambda>xs. 0) (2 + length (concat example_categories)) features = Inr raw \<and>
      normalize raw = Inr risk \<and>
      handle_predict
        (load_artifacts (Inr (fitted_model (\<lambda>xs. 0) (2 + length (concat example_categories))))
           (Inr (one_hot_encoder example_categories)))
        (Inr (Some unseen_soil_record)) = (ResultPayload risk raw, 200) \<and>
      0 \<le> risk \<and> risk \<le> 100)"
proof -
  have h1: "length example_categories = 4"
    by (simp add: example_categories_def)
  have h2: "validate unseen_soil_record"
    by (simp add: unseen_soil_record_def validate_def required_input_cols_def)
  have h3: "map_of unseen_soil_record ''temp_7day_avg_f'' = Some (JNum (Fin 68))"
    by (simp add: unseen_soil_record_def)
  have h4: "map_of unseen_soil_record ''precip_7day_total_in'' = Some (JNum (Fin (6 / 5)))"
    by (simp add: unseen_soil_record_def)
  have h5: "(0::nat) < 4" by simp
  have h6: "map_of unseen_soil_record (categorical_cols ! 0) = Some (JStr ''peat'')"
    by (simp add: unseen_soil_record_def categorical_cols_def)
  have h7: "JStr ''peat'' \<notin> JStr ` set (example_categories ! 0)"
    by (simp add: example_categories_def)
  note x = unseen_category_scored [OF h1 h2 h3 h4 h5 h6 h7, where score = "\<lambda>xs. 0"]
  from h1 h2 h6 h7 x show ?thesis by (intro conjI)
qed

end
